theory Spec2Isabelle
  imports Main
begin

section \<open>Errors\<close>

text \<open>
  Go's \<^verbatim>\<open>error\<close> values, as far as the verified functions build or inspect them.
  A nil error is \<open>None\<close> of \<open>error option\<close>.  \<open>TraceErr\<close> is the carrier that
  the \<^verbatim>\<open>trace\<close> package puts around an error (the wrapped error and the user
  messages added to it; the captured stack is left out), \<open>Aggregate\<close> is its
  aggregate of several errors, kept in order.  The \<^verbatim>\<open>trace\<close> package is a
  library outside the repository; its functions below follow its own definitions.
\<close>

datatype error =
    ErrUsingNonRegisteredDevice
  | ErrorString string
  | BadParameterError string
  | CompareFailedError string
  | NotFoundError string
  | Aggregate "error list"
  | TraceErr error "string list"

text \<open>
  \<^verbatim>\<open>trace.Wrap(err, args...)\<close>: nil stays nil; an error that is not yet a
  \<open>TraceErr\<close> gets one; a message, when given, is added to the carrier.
\<close>

fun AddUserMessage :: "error \<Rightarrow> string list \<Rightarrow> error" where
  "AddUserMessage (TraceErr e ms) args = TraceErr e (ms @ args)"
| "AddUserMessage e args = TraceErr e args"

definition trace_Wrap :: "error option \<Rightarrow> string list \<Rightarrow> error option" where
  "trace_Wrap err args = (case err of None \<Rightarrow> None | Some e \<Rightarrow> Some (AddUserMessage e args))"

definition trace_CompareFailed :: "string \<Rightarrow> error option" where
  "trace_CompareFailed message = Some (TraceErr (CompareFailedError message) [])"

definition trace_BadParameter :: "string \<Rightarrow> error option" where
  "trace_BadParameter message = Some (TraceErr (BadParameterError message) [])"

definition trace_NotFound :: "string \<Rightarrow> error option" where
  "trace_NotFound message = Some (TraceErr (NotFoundError message) [])"

text \<open>\<^verbatim>\<open>trace.IsCompareFailed\<close>, \<^verbatim>\<open>trace.IsBadParameter\<close>, \<^verbatim>\<open>trace.IsNotFound\<close>:
  the class of an error, read through its carrier.\<close>

fun trace_Unwrap :: "error \<Rightarrow> error" where
  "trace_Unwrap (TraceErr e ms) = trace_Unwrap e"
| "trace_Unwrap e = e"

definition trace_IsCompareFailed :: "error option \<Rightarrow> bool" where
  "trace_IsCompareFailed err =
     (case err of None \<Rightarrow> False
      | Some e \<Rightarrow> (case trace_Unwrap e of CompareFailedError m \<Rightarrow> True | _ \<Rightarrow> False))"

definition trace_IsBadParameter :: "error option \<Rightarrow> bool" where
  "trace_IsBadParameter err =
     (case err of None \<Rightarrow> False
      | Some e \<Rightarrow> (case trace_Unwrap e of BadParameterError m \<Rightarrow> True | _ \<Rightarrow> False))"

definition trace_IsNotFound :: "error option \<Rightarrow> bool" where
  "trace_IsNotFound err =
     (case err of None \<Rightarrow> False
      | Some e \<Rightarrow> (case trace_Unwrap e of NotFoundError m \<Rightarrow> True | _ \<Rightarrow> False))"

section \<open>The client cache (package syncclient)\<close>

text \<open>
  A \<^verbatim>\<open>*SyncClient\<close> is a reference; the model names each client by a number and
  writes the nil pointer as \<open>None\<close>.  A \<^verbatim>\<open>[]byte\<close> is a list of bytes, the nil
  slice \<open>None\<close>.  \<^verbatim>\<open>bytes.Equal\<close> compares contents, so a nil slice equals an
  empty one.
\<close>

type_synonym SyncClient = nat

type_synonym bytes = "char list option"

definition len :: "bytes \<Rightarrow> nat" where
  "len b = (case b of None \<Rightarrow> 0 | Some bs \<Rightarrow> length bs)"

definition bytes_Equal :: "bytes \<Rightarrow> bytes \<Rightarrow> bool" where
  "bytes_Equal a b =
     ((case a of None \<Rightarrow> [] | Some x \<Rightarrow> x) = (case b of None \<Rightarrow> [] | Some y \<Rightarrow> y))"

record Cache =
  cachedCert :: bytes
  cachedClient :: "SyncClient option"

text \<open>
  Modelled from the spec: the methods \<^verbatim>\<open>LockClient\<close> and \<^verbatim>\<open>RetireClient\<close>
  of \<^verbatim>\<open>SyncClient\<close>, whose source is not at hand.  By the spec a handle comes
  with a release capability that the caller invokes when done, and a superseded
  handle is retired (closed) on a background task: \<^verbatim>\<open>LockClient\<close> returns the
  function that releases the usage lock of the client it was called on, and
  \<^verbatim>\<open>go oldClient.RetireClient()\<close> starts a goroutine and does not run it, so
  the model records the goroutine as started.
\<close>

datatype release = UnlockClient SyncClient

datatype goroutine = RetireClient SyncClient

definition LockClient :: "SyncClient option \<Rightarrow> release option" where
  "LockClient c = map_option UnlockClient c"

text \<open>
  One call of \<^verbatim>\<open>Cache.Get\<close>, run under the cache's mutex.  The two function
  fields of the cache are given by what they return in this call: \<open>certGetter\<close> is
  the result of \<^verbatim>\<open>c.certGetter()\<close>, \<open>clientBuilder\<close> the result that
  \<^verbatim>\<open>c.clientBuilder(ctx)\<close> has if the call reaches it (an error, or a client:
  a builder that reports no error is taken to return a client).  The outcome holds
  the three returned values, the cache after the call, how many times the builder was
  invoked and the goroutines the call started.
\<close>

record GetOutcome =
  returned :: "SyncClient option \<times> release option \<times> error option"
  cacheAfter :: Cache
  builderCalls :: nat
  started :: "goroutine list"

definition Get :: "error + bytes \<Rightarrow> error + SyncClient \<Rightarrow> Cache \<Rightarrow> GetOutcome" where
  "Get certGetter clientBuilder c =
     (case certGetter of
        Inl err \<Rightarrow>
          \<lparr>returned = (None, None, trace_Wrap (Some err) []),
           cacheAfter = c, builderCalls = 0, started = []\<rparr>
      | Inr cert \<Rightarrow>
          if cert = None \<or> len cert = 0 then
            \<lparr>returned = (None, None,
               trace_CompareFailed ''no certificate in tbot's memory, cannot compare''),
             cacheAfter = c, builderCalls = 0, started = []\<rparr>
          else if cachedClient c \<noteq> None \<and> bytes_Equal cert (cachedCert c) then
            \<lparr>returned = (cachedClient c, LockClient (cachedClient c), None),
             cacheAfter = c, builderCalls = 0, started = []\<rparr>
          else
            (let oldClient = cachedClient c in
             case clientBuilder of
               Inl err \<Rightarrow>
                 \<lparr>returned = (None, None, trace_Wrap (Some err) []),
                  cacheAfter = c, builderCalls = 1, started = []\<rparr>
             | Inr freshClient \<Rightarrow>
                 (let c' = c\<lparr>cachedCert := cert, cachedClient := Some freshClient\<rparr> in
                  \<lparr>returned = (cachedClient c', LockClient (cachedClient c'), None),
                   cacheAfter = c', builderCalls = 1,
                   started = (case oldClient of None \<Rightarrow> []
                              | Some old \<Rightarrow> [RetireClient old])\<rparr>)))"

section \<open>MFA prompts (package mfa)\<close>

text \<open>
  \<^verbatim>\<open>errors.Is(err, target)\<close>, for the sentinel targets the code tests: the error
  itself, the error inside a \<open>TraceErr\<close>, or a member of an aggregate.  A nil error
  is no error.
\<close>

fun errors_Is' :: "error \<Rightarrow> error \<Rightarrow> bool" where
  "errors_Is' (TraceErr e ms) target = (TraceErr e ms = target \<or> errors_Is' e target)"
| "errors_Is' (Aggregate es) target = (Aggregate es = target \<or> list_ex (\<lambda>e. errors_Is' e target) es)"
| "errors_Is' e target = (e = target)"

definition errors_Is :: "error option \<Rightarrow> error \<Rightarrow> bool" where
  "errors_Is err target = (case err of None \<Rightarrow> False | Some e \<Rightarrow> errors_Is' e target)"

text \<open>
  \<^verbatim>\<open>trace.NewAggregate(errs...)\<close>: the nil values are dropped; nil when nothing is
  left, otherwise the aggregate of the others, in order, in a \<open>TraceErr\<close>.
\<close>

definition trace_NewAggregate :: "error option list \<Rightarrow> error option" where
  "trace_NewAggregate errs =
     (let nonNils = List.map_filter (\<lambda>err. err) errs in
      if nonNils = [] then None else Some (TraceErr (Aggregate nonNils) []))"

datatype AuthenticatorAttachment = AttachmentAuto | AttachmentCrossPlatform | AttachmentPlatform

record PromptConfig =
  ProxyAddress :: string
  PromptReason :: string
  DeviceType :: string
  Quiet :: bool
  AllowStdinHijack :: bool
  AuthenticatorAttachment :: AuthenticatorAttachment
  PreferOTP :: bool
  WebauthnSupported :: bool

text \<open>The challenge that \<open>chal\<close> points to; a sub-challenge that is absent is nil.\<close>

record MFAAuthenticateChallenge =
  TOTP :: "unit option"
  WebauthnChallenge :: "string option"

datatype MFAAuthenticateResponse = TOTPResponse string | WebauthnResponse string

record RunOpts =
  PromptTOTP :: bool
  PromptWebauthn :: bool

definition GetRunOptions :: "PromptConfig \<Rightarrow> MFAAuthenticateChallenge \<Rightarrow> RunOpts \<times> error option" where
  "GetRunOptions c chal =
     (let promptTOTP = (TOTP chal \<noteq> None);
          promptWebauthn = (WebauthnChallenge chal \<noteq> None)
      in
      if \<not> promptTOTP \<and> \<not> promptWebauthn then
        (\<lparr>PromptTOTP = False, PromptWebauthn = False\<rparr>,
         trace_BadParameter ''mfa challenge is empty'')
      else if \<not> promptTOTP \<and> \<not> WebauthnSupported c then
        (\<lparr>PromptTOTP = False, PromptWebauthn = False\<rparr>,
         trace_BadParameter
           ''hardware device MFA not supported by your platform, please register an OTP device'')
      else
        (let promptWebauthn = (if \<not> WebauthnSupported c then False else promptWebauthn) in
         if promptTOTP \<and> PreferOTP c then
           (\<lparr>PromptTOTP = promptTOTP, PromptWebauthn = False\<rparr>, None)
         else if promptWebauthn \<and> AuthenticatorAttachment c \<noteq> AttachmentAuto then
           (\<lparr>PromptTOTP = False, PromptWebauthn = promptWebauthn\<rparr>, None)
         else if promptWebauthn \<and> \<not> AllowStdinHijack c then
           (\<lparr>PromptTOTP = False, PromptWebauthn = promptWebauthn\<rparr>, None)
         else
           (\<lparr>PromptTOTP = promptTOTP, PromptWebauthn = promptWebauthn\<rparr>, None)))"

text \<open>
  The statement of the enablement policy in words, to compare \<open>GetRunOptions\<close> with:
  a modality is available when the challenge carries its sub-challenge (and, for
  Webauthn, the platform supports it); the three preference rules apply in order.
\<close>

definition totpAvailable :: "PromptConfig \<Rightarrow> MFAAuthenticateChallenge \<Rightarrow> bool" where
  "totpAvailable c chal = (TOTP chal \<noteq> None)"

definition webauthnAvailable :: "PromptConfig \<Rightarrow> MFAAuthenticateChallenge \<Rightarrow> bool" where
  "webauthnAvailable c chal = (WebauthnChallenge chal \<noteq> None \<and> WebauthnSupported c)"

definition noModalityEnabled :: "PromptConfig \<Rightarrow> MFAAuthenticateChallenge \<Rightarrow> bool" where
  "noModalityEnabled c chal =
     ((TOTP chal = None \<and> WebauthnChallenge chal = None)
      \<or> (TOTP chal = None \<and> \<not> WebauthnSupported c))"

definition preferenceRules :: "PromptConfig \<Rightarrow> MFAAuthenticateChallenge \<Rightarrow> RunOpts" where
  "preferenceRules c chal =
     (if PreferOTP c \<and> totpAvailable c chal then
        \<lparr>PromptTOTP = True, PromptWebauthn = False\<rparr>
      else if AuthenticatorAttachment c \<noteq> AttachmentAuto \<and> webauthnAvailable c chal then
        \<lparr>PromptTOTP = False, PromptWebauthn = True\<rparr>
      else if \<not> AllowStdinHijack c \<and> webauthnAvailable c chal then
        \<lparr>PromptTOTP = False, PromptWebauthn = True\<rparr>
      else
        \<lparr>PromptTOTP = totpAvailable c chal, PromptWebauthn = webauthnAvailable c chal\<rparr>)"

record MFAGoroutineResponse =
  Resp :: "MFAAuthenticateResponse option"
  Err :: "error option"

text \<open>
  \<^verbatim>\<open>HandleMFAGoroutines\<close>.  The goroutines that \<^verbatim>\<open>startGoroutines\<close> starts
  push their responses on \<^verbatim>\<open>respC\<close>, which is closed when all of them are done;
  \<open>respC\<close> below is the sequence of responses in the order the channel delivers
  them.  The loop reads them one by one and stops reading at the first response
  that makes it return: what the channel would deliver afterwards is not looked at.
\<close>

fun rangeRespC :: "error option list \<Rightarrow> MFAGoroutineResponse list
    \<Rightarrow> MFAAuthenticateResponse option \<times> error option" where
  "rangeRespC errs [] =
     (None, trace_Wrap (trace_NewAggregate errs)
        [''failed to authenticate using available MFA devices''])"
| "rangeRespC errs (resp # respC) =
     (if errors_Is (Err resp) ErrUsingNonRegisteredDevice then
        (None, trace_Wrap (Err resp) [])
      else if Err resp \<noteq> None then
        rangeRespC (errs @ [Err resp]) respC
      else
        (Resp resp, None))"

definition HandleMFAGoroutines :: "MFAGoroutineResponse list
    \<Rightarrow> MFAAuthenticateResponse option \<times> error option" where
  "HandleMFAGoroutines respC = rangeRespC [] respC"

section \<open>The headless watcher (package daemon)\<close>

text \<open>
  A context made by \<^verbatim>\<open>context.WithCancel\<close> or \<^verbatim>\<open>context.WithTimeout\<close> is
  named by a number, and its cancel function by the same number: calling the cancel
  function puts the number among the canceled ones.
\<close>

type_synonym ctx = nat

subsection \<open>The registry of watchers\<close>

text \<open>
  The part of \<^verbatim>\<open>Service\<close> that starting and stopping a watcher touches:
  \<open>headlessWatcherClosers\<close> is the map from cluster URI to the cancel function of the
  cluster's watch context.  \<open>watchContexts\<close> lists the watch contexts created so far,
  context \<open>k\<close> being entry \<open>k\<close>, the URI of the cluster it watches; \<open>canceledWatches\<close>
  holds the watch contexts whose cancel function was called.
\<close>

record Service =
  headlessWatcherClosers :: "string \<rightharpoonup> ctx"
  watchContexts :: "string list"
  canceledWatches :: "ctx set"

definition stopHeadlessWatcher :: "string \<Rightarrow> Service \<Rightarrow> error option \<times> Service" where
  "stopHeadlessWatcher uri s =
     (case headlessWatcherClosers s uri of
        None \<Rightarrow> (trace_NotFound (''no headless watcher for cluster '' @ uri), s)
      | Some cancel \<Rightarrow>
          (None, s\<lparr>canceledWatches := insert cancel (canceledWatches s),
                   headlessWatcherClosers := (headlessWatcherClosers s)(uri := None)\<rparr>))"

text \<open>
  The select that ends \<^verbatim>\<open>startHeadlessWatcher\<close> when \<^verbatim>\<open>waitInit\<close> is set, by
  the case that fires.  A call that blocks in it has no outcome.
\<close>

datatype waitInitSelect = PendingWatcherInitialized | WatchCtxDone

text \<open>
  \<^verbatim>\<open>startHeadlessWatcher\<close>, called with the registry's mutex held.  \<open>uri\<close> is
  \<^verbatim>\<open>cluster.URI.String()\<close>, \<open>newLinear\<close> the error of
  \<^verbatim>\<open>retryutils.NewLinear\<close> (nil for a configuration it accepts), \<open>fired\<close> the
  case of the final select.  The watch loop runs in a goroutine of its own; what it
  does to the registry when it ends is \<open>watchGoroutineExit\<close>.
\<close>

definition startHeadlessWatcher ::
    "string \<Rightarrow> bool \<Rightarrow> error option \<Rightarrow> waitInitSelect \<Rightarrow> Service \<Rightarrow> error option \<times> Service" where
  "startHeadlessWatcher uri waitInit newLinear fired s =
     (case stopHeadlessWatcher uri s of (err, s1) \<Rightarrow>
        if err \<noteq> None \<and> \<not> trace_IsNotFound err then (trace_Wrap err [], s1)
        else if newLinear \<noteq> None then (trace_Wrap newLinear [], s1)
        else
          (let watchCtx = length (watchContexts s1);
               s2 = s1\<lparr>watchContexts := watchContexts s1 @ [uri],
                        headlessWatcherClosers := (headlessWatcherClosers s1)(uri \<mapsto> watchCtx)\<rparr>
           in
           if waitInit \<and> fired = WatchCtxDone then
             (trace_Wrap (Some (ErrorString ''context canceled'')) [], s2)
           else (None, s2)))"

text \<open>
  The deferred function of the watch goroutine of context \<open>watchCtx\<close>, run with the
  mutex held when the goroutine ends: nothing when the context is done, otherwise the
  watcher of the goroutine's cluster is stopped (an error of that is only logged).
\<close>

definition watchGoroutineExit :: "ctx \<Rightarrow> Service \<Rightarrow> Service" where
  "watchGoroutineExit watchCtx s =
     (if watchCtx \<in> canceledWatches s then s
      else snd (stopHeadlessWatcher (watchContexts s ! watchCtx) s))"

text \<open>The watches of a cluster that are active: created for it and not canceled.\<close>

definition activeWatches :: "Service \<Rightarrow> string \<Rightarrow> ctx list" where
  "activeWatches s uri =
     filter (\<lambda>k. watchContexts s ! k = uri \<and> k \<notin> canceledWatches s)
       [0 ..< length (watchContexts s)]"

text \<open>The calls that change the registry, and a service run through a sequence of them
  from its start, where no watcher is registered.\<close>

datatype registryCall =
    Start string bool "error option" waitInitSelect
  | Stop string
  | GoroutineExit ctx

definition newService :: Service where
  "newService = \<lparr>headlessWatcherClosers = Map.empty, watchContexts = [], canceledWatches = {}\<rparr>"

fun registryStep :: "Service \<Rightarrow> registryCall \<Rightarrow> Service" where
  "registryStep s (Start uri waitInit newLinear fired) =
     snd (startHeadlessWatcher uri waitInit newLinear fired s)"
| "registryStep s (Stop uri) = snd (stopHeadlessWatcher uri s)"
| "registryStep s (GoroutineExit watchCtx) =
     (if watchCtx < length (watchContexts s) then watchGoroutineExit watchCtx s else s)"

definition serviceAfter :: "registryCall list \<Rightarrow> Service" where
  "serviceAfter calls = foldl registryStep newService calls"

subsection \<open>The watch loop\<close>

datatype OpType = OpUnreliable | OpInvalid | OpInit | OpPut | OpDelete | OpGet

datatype HeadlessAuthenticationState =
    HEADLESS_AUTHENTICATION_STATE_UNSPECIFIED
  | HEADLESS_AUTHENTICATION_STATE_PENDING
  | HEADLESS_AUTHENTICATION_STATE_DENIED
  | HEADLESS_AUTHENTICATION_STATE_APPROVED

text \<open>
  The resource of an event: a \<^verbatim>\<open>*types.HeadlessAuthentication\<close> with its name,
  state and client IP address, or a resource of another type, with the name of the
  type and its own name.
\<close>

datatype Resource =
    HeadlessAuthentication string HeadlessAuthenticationState string
  | OtherResource string string

fun GetName :: "Resource \<Rightarrow> string" where
  "GetName (HeadlessAuthentication name st ip) = name"
| "GetName (OtherResource typeName name) = name"

record Event =
  Type :: OpType
  Resource :: Resource

text \<open>
  The state that the loop of \<^verbatim>\<open>watch\<close> works on: \<open>pendingRequests\<close> maps a
  request name to the cancel function of its send context; \<open>sendContexts\<close> counts the
  send contexts created, \<open>canceledSends\<close> holds those whose cancel function was
  called, \<open>sendGoroutines\<close> the notifications started (request name and context).
\<close>

record WatchState =
  pendingRequests :: "string \<rightharpoonup> ctx"
  sendContexts :: nat
  canceledSends :: "ctx set"
  sendGoroutines :: "(string \<times> ctx) list"

definition cancelPendingRequest :: "string \<Rightarrow> WatchState \<Rightarrow> WatchState" where
  "cancelPendingRequest name s =
     (case pendingRequests s name of
        Some cancel \<Rightarrow> s\<lparr>canceledSends := insert cancel (canceledSends s)\<rparr>
      | None \<Rightarrow> s)"

definition addPendingRequest :: "string \<Rightarrow> ctx \<Rightarrow> WatchState \<Rightarrow> WatchState" where
  "addPendingRequest name cancel s = s\<lparr>pendingRequests := (pendingRequests s)(name \<mapsto> cancel)\<rparr>"

text \<open>What the select of the loop receives in one round.\<close>

datatype Signal =
    PendingEvent Event
  | ResolutionEvent Event
  | PendingWatcherDone "error option"
  | ResolutionWatcherDone "error option"
  | WatchCtxIsDone

text \<open>One round of the loop: it goes on with a new state, or \<^verbatim>\<open>watch\<close> returns.\<close>

datatype Round = Continue WatchState | Return "error option" WatchState

definition unexpectedResource :: "string \<Rightarrow> error option" where
  "unexpectedResource typeName =
     Some (TraceErr (ErrorString (''headless watcher returned an unexpected resource type '' @ typeName)) [])"

fun watchSelect :: "Signal \<Rightarrow> WatchState \<Rightarrow> Round" where
  "watchSelect (PendingEvent event) s =
     (if Type event \<noteq> OpPut then Continue s
      else case Resource event of
        OtherResource typeName name \<Rightarrow> Return (unexpectedResource typeName) s
      | HeadlessAuthentication name st ip \<Rightarrow>
          (let cancelSend = sendContexts s;
               s1 = s\<lparr>sendContexts := Suc (sendContexts s)\<rparr>;
               s2 = addPendingRequest name cancelSend s1
           in Continue (s2\<lparr>sendGoroutines := sendGoroutines s2 @ [(name, cancelSend)]\<rparr>)))"
| "watchSelect (ResolutionEvent event) s =
     (case Type event of
        OpPut \<Rightarrow>
          (case Resource event of
             OtherResource typeName name \<Rightarrow> Return (unexpectedResource typeName) s
           | HeadlessAuthentication name st ip \<Rightarrow>
               (case st of
                  HEADLESS_AUTHENTICATION_STATE_APPROVED \<Rightarrow> Continue (cancelPendingRequest name s)
                | HEADLESS_AUTHENTICATION_STATE_DENIED \<Rightarrow> Continue (cancelPendingRequest name s)
                | _ \<Rightarrow> Continue s))
      | OpDelete \<Rightarrow> Continue (cancelPendingRequest (GetName (Resource event)) s)
      | _ \<Rightarrow> Continue s)"
| "watchSelect (PendingWatcherDone err) s = Return (trace_Wrap err [''pending watcher error'']) s"
| "watchSelect (ResolutionWatcherDone err) s = Return (trace_Wrap err [''resolution watcher error'']) s"
| "watchSelect WatchCtxIsDone s = Return None s"

text \<open>The loop over the signals delivered so far; with none left it waits, still running.\<close>

fun watchLoop :: "WatchState \<Rightarrow> Signal list \<Rightarrow> Round" where
  "watchLoop s [] = Continue s"
| "watchLoop s (signal # signals) =
     (case watchSelect signal s of
        Continue s' \<Rightarrow> watchLoop s' signals
      | Return err s' \<Rightarrow> Return err s')"

text \<open>The state at the start of \<^verbatim>\<open>watch\<close>'s loop in a fresh watcher.\<close>

definition newWatchState :: WatchState where
  "newWatchState = \<lparr>pendingRequests = Map.empty, sendContexts = 0, canceledSends = {},
     sendGoroutines = []\<rparr>"

text \<open>
  A terminal resolution event for request \<open>r\<close>: a put of the request in state approved
  or denied, or a delete of a resource named \<open>r\<close>.
\<close>

fun terminalResolution :: "Signal \<Rightarrow> string \<Rightarrow> bool" where
  "terminalResolution (ResolutionEvent event) r =
     (case Type event of
        OpPut \<Rightarrow>
          (case Resource event of
             HeadlessAuthentication name st ip \<Rightarrow>
               name = r \<and> (st = HEADLESS_AUTHENTICATION_STATE_APPROVED
                          \<or> st = HEADLESS_AUTHENTICATION_STATE_DENIED)
           | OtherResource typeName name \<Rightarrow> False)
      | OpDelete \<Rightarrow> GetName (Resource event) = r
      | _ \<Rightarrow> False)"
| "terminalResolution signal r = False"

text \<open>A put event of the pending stream for the request \<open>r\<close>.\<close>

fun pendingPut :: "Signal \<Rightarrow> string \<Rightarrow> bool" where
  "pendingPut (PendingEvent event) r =
     (Type event = OpPut \<and>
      (case Resource event of
         HeadlessAuthentication name st ip \<Rightarrow> name = r
       | OtherResource typeName name \<Rightarrow> False))"
| "pendingPut signal r = False"

subsection \<open>Auxiliary notions for the proofs\<close>

text \<open>
  The invariant of the registry: a registered cancel function belongs to a watch context
  of that cluster that is not canceled; a watch context that is not canceled is the one
  registered for its cluster; only contexts that exist are canceled.
\<close>

definition registryInv :: "Service \<Rightarrow> bool" where
  "registryInv s =
     ((\<forall>u k. headlessWatcherClosers s u = Some k \<longrightarrow>
         k < length (watchContexts s) \<and> watchContexts s ! k = u \<and> k \<notin> canceledWatches s)
      \<and> (\<forall>k. k < length (watchContexts s) \<and> k \<notin> canceledWatches s \<longrightarrow>
            headlessWatcherClosers s (watchContexts s ! k) = Some k)
      \<and> (\<forall>k. k \<in> canceledWatches s \<longrightarrow> k < length (watchContexts s)))"

text \<open>The registration that ends a successful \<open>startHeadlessWatcher\<close>.\<close>

definition register :: "string \<Rightarrow> Service \<Rightarrow> Service" where
  "register uri s =
     s\<lparr>watchContexts := watchContexts s @ [uri],
       headlessWatcherClosers := (headlessWatcherClosers s)(uri \<mapsto> length (watchContexts s))\<rparr>"

text \<open>The state a round leaves, whether the loop goes on or returns.\<close>

definition roundState :: "Round \<Rightarrow> WatchState" where
  "roundState round = (case round of Continue s \<Rightarrow> s | Return err s \<Rightarrow> s)"

section \<open>Properties of the errors\<close>

lemma trace_Unwrap_AddUserMessage: "trace_Unwrap (AddUserMessage e args) = trace_Unwrap e"
  by (cases e) simp_all

section \<open>Properties of the client cache\<close>

lemma Get_hit:
  assumes "cert \<noteq> None" and "len cert \<noteq> 0"
    and "cachedClient c = Some h" and "bytes_Equal cert (cachedCert c)"
  shows "Get (Inr cert) b c =
    \<lparr>returned = (Some h, Some (UnlockClient h), None),
     cacheAfter = c, builderCalls = 0, started = []\<rparr>"
  using assms by (simp add: Get_def LockClient_def)

lemma Get_miss:
  assumes "cert \<noteq> None" and "len cert \<noteq> 0"
    and "cachedClient c = None \<or> \<not> bytes_Equal cert (cachedCert c)"
  shows "Get (Inr cert) b c =
    (case b of
       Inl err \<Rightarrow>
         \<lparr>returned = (None, None, trace_Wrap (Some err) []),
          cacheAfter = c, builderCalls = 1, started = []\<rparr>
     | Inr fresh \<Rightarrow>
         \<lparr>returned = (Some fresh, Some (UnlockClient fresh), None),
          cacheAfter = c\<lparr>cachedCert := cert, cachedClient := Some fresh\<rparr>,
          builderCalls = 1,
          started = (case cachedClient c of None \<Rightarrow> [] | Some old \<Rightarrow> [RetireClient old])\<rparr>)"
  using assms by (auto simp add: Get_def LockClient_def Let_def split: sum.splits)

lemma bytes_Equal_refl: "bytes_Equal a a"
  by (simp add: bytes_Equal_def)

text \<open>
  C6.  When the credential getter returns nil or empty certificate bytes and no error,
  \<open>Get\<close> fails with the CompareFailed error "no certificate in tbot's memory, cannot
  compare", returns neither a client nor a release function, never invokes the client
  builder, and leaves the cache as it was.
\<close>

theorem Get_no_certificate:
  assumes "cert = None \<or> cert = Some []"
  shows "returned (Get (Inr cert) clientBuilder c) =
           (None, None, trace_CompareFailed ''no certificate in tbot's memory, cannot compare'')
       \<and> trace_IsCompareFailed (snd (snd (returned (Get (Inr cert) clientBuilder c))))
       \<and> builderCalls (Get (Inr cert) clientBuilder c) = 0
       \<and> cacheAfter (Get (Inr cert) clientBuilder c) = c
       \<and> started (Get (Inr cert) clientBuilder c) = []"
  using assms
  by (auto simp add: Get_def len_def trace_CompareFailed_def trace_IsCompareFailed_def)

theorem Get_no_certificate_witness:
  "returned (Get (Inr None) (Inr 7) \<lparr>cachedCert = Some ''cert1'', cachedClient = Some 3\<rparr>) =
     (None, None, Some (TraceErr (CompareFailedError
        ''no certificate in tbot's memory, cannot compare'') []))
   \<and> builderCalls (Get (Inr None) (Inr 7) \<lparr>cachedCert = Some ''cert1'', cachedClient = Some 3\<rparr>) = 0"
  using Get_no_certificate [of None "Inr 7" "\<lparr>cachedCert = Some ''cert1'', cachedClient = Some 3\<rparr>"]
  by (simp add: trace_CompareFailed_def)

text \<open>
  C7.  Two successive calls of \<open>Get\<close> between which the credential getter returns the
  same certificate bytes: when the first call succeeded with handle \<open>h\<close> and built it,
  the second call returns the same handle \<open>h\<close>, does not invoke the builder (whatever
  the builder would have returned) and leaves the cache as it is; over the two calls
  the builder is invoked exactly once.
\<close>

theorem Get_twice_same_certificate:
  assumes "returned (Get (Inr cert) b1 c) = (Some h, rel, None)"
    and "builderCalls (Get (Inr cert) b1 c) = 1"
  shows "returned (Get (Inr cert) b2 (cacheAfter (Get (Inr cert) b1 c))) =
           (Some h, Some (UnlockClient h), None)
       \<and> builderCalls (Get (Inr cert) b2 (cacheAfter (Get (Inr cert) b1 c))) = 0
       \<and> cacheAfter (Get (Inr cert) b2 (cacheAfter (Get (Inr cert) b1 c))) =
           cacheAfter (Get (Inr cert) b1 c)
       \<and> started (Get (Inr cert) b2 (cacheAfter (Get (Inr cert) b1 c))) = []
       \<and> builderCalls (Get (Inr cert) b1 c)
           + builderCalls (Get (Inr cert) b2 (cacheAfter (Get (Inr cert) b1 c))) = 1"
proof -
  let ?r1 = "Get (Inr cert) b1 c"
  from assms have ok: "cert \<noteq> None" "len cert \<noteq> 0"
    by (auto simp add: Get_def trace_CompareFailed_def split: if_splits)
  from assms ok have miss: "cachedClient c = None \<or> \<not> bytes_Equal cert (cachedCert c)"
    by (auto simp add: Get_def split: if_splits)
  from assms(1) have fresh: "b1 = Inr h"
    using Get_miss [OF ok miss, of b1] by (cases b1) (simp_all add: trace_Wrap_def)
  have after: "cacheAfter ?r1 = c\<lparr>cachedCert := cert, cachedClient := Some h\<rparr>"
    using Get_miss [OF ok miss, of b1] fresh by simp
  have "Get (Inr cert) b2 (cacheAfter ?r1) =
      \<lparr>returned = (Some h, Some (UnlockClient h), None),
       cacheAfter = cacheAfter ?r1, builderCalls = 0, started = []\<rparr>"
    by (rule Get_hit [OF ok]) (simp_all add: after bytes_Equal_refl)
  with assms(2) show ?thesis by simp
qed

theorem Get_twice_same_certificate_witness:
  "returned (Get (Inr (Some ''cert1'')) (Inr 8)
      (cacheAfter (Get (Inr (Some ''cert1'')) (Inr 7) \<lparr>cachedCert = None, cachedClient = None\<rparr>))) =
     (Some 7, Some (UnlockClient 7), None)
   \<and> builderCalls (Get (Inr (Some ''cert1'')) (Inr 7) \<lparr>cachedCert = None, cachedClient = None\<rparr>)
       + builderCalls (Get (Inr (Some ''cert1'')) (Inr 8)
           (cacheAfter (Get (Inr (Some ''cert1'')) (Inr 7) \<lparr>cachedCert = None, cachedClient = None\<rparr>))) = 1"
proof -
  have r: "returned (Get (Inr (Some ''cert1'')) (Inr 7) \<lparr>cachedCert = None, cachedClient = None\<rparr>) =
      (Some 7, Some (UnlockClient 7), None)"
    by (simp add: Get_def len_def LockClient_def)
  have n: "builderCalls (Get (Inr (Some ''cert1'')) (Inr 7) \<lparr>cachedCert = None, cachedClient = None\<rparr>) = 1"
    by (simp add: Get_def len_def)
  from Get_twice_same_certificate [OF r n, of "Inr 8"] show ?thesis by simp
qed

text \<open>
  C8, as the code has it.  A call of \<open>Get\<close> in which the getter returns non-empty
  certificate bytes and no error, and these bytes differ from the bytes stored with the
  cached handle, or no handle is cached yet, invokes the client builder exactly once.  When the builder
  succeeds, \<open>Get\<close> returns the newly built handle with its release function, stores
  the new certificate bytes and the new handle, and starts one goroutine retiring the
  previous handle when there was one (none otherwise); the retirement is started, not
  run, inside the call.
\<close>

theorem Get_rebuild:
  assumes "cert \<noteq> None" and "len cert \<noteq> 0"
    and "cachedClient c = None \<or> \<not> bytes_Equal cert (cachedCert c)"
  shows "builderCalls (Get (Inr cert) b c) = 1
       \<and> returned (Get (Inr cert) (Inr fresh) c) = (Some fresh, Some (UnlockClient fresh), None)
       \<and> cachedCert (cacheAfter (Get (Inr cert) (Inr fresh) c)) = cert
       \<and> cachedClient (cacheAfter (Get (Inr cert) (Inr fresh) c)) = Some fresh
       \<and> started (Get (Inr cert) (Inr fresh) c) =
           (case cachedClient c of None \<Rightarrow> [] | Some old \<Rightarrow> [RetireClient old])"
proof -
  have "builderCalls (Get (Inr cert) b c) = 1"
    using Get_miss [OF assms, of b] by (cases b) simp_all
  moreover have "Get (Inr cert) (Inr fresh) c =
      \<lparr>returned = (Some fresh, Some (UnlockClient fresh), None),
       cacheAfter = c\<lparr>cachedCert := cert, cachedClient := Some fresh\<rparr>,
       builderCalls = 1,
       started = (case cachedClient c of None \<Rightarrow> [] | Some old \<Rightarrow> [RetireClient old])\<rparr>"
    using Get_miss [OF assms, of "Inr fresh"] by simp
  ultimately show ?thesis by simp
qed

theorem Get_rebuild_witness:
  "builderCalls (Get (Inr (Some ''cert2'')) (Inr 8)
      \<lparr>cachedCert = Some ''cert1'', cachedClient = Some 7\<rparr>) = 1
   \<and> returned (Get (Inr (Some ''cert2'')) (Inr 8)
      \<lparr>cachedCert = Some ''cert1'', cachedClient = Some 7\<rparr>) =
        (Some 8, Some (UnlockClient 8), None)
   \<and> cachedCert (cacheAfter (Get (Inr (Some ''cert2'')) (Inr 8)
      \<lparr>cachedCert = Some ''cert1'', cachedClient = Some 7\<rparr>)) = Some ''cert2''
   \<and> started (Get (Inr (Some ''cert2'')) (Inr 8)
      \<lparr>cachedCert = Some ''cert1'', cachedClient = Some 7\<rparr>) = [RetireClient 7]"
proof -
  have a: "Some ''cert2'' \<noteq> (None :: bytes)" by simp
  have l: "len (Some ''cert2'') \<noteq> 0" by (simp add: len_def)
  have m: "cachedClient \<lparr>cachedCert = Some ''cert1'', cachedClient = Some 7\<rparr> = None
      \<or> \<not> bytes_Equal (Some ''cert2'') (cachedCert \<lparr>cachedCert = Some ''cert1'', cachedClient = Some 7\<rparr>)"
    by (simp add: bytes_Equal_def)
  from Get_rebuild [OF a l m, of "Inr 8" 8] show ?thesis by simp
qed

text \<open>
  C8 as stated fails: when the getter returns nil bytes, they differ from the stored
  bytes "cert1" of the cached handle, and yet \<open>Get\<close> does not invoke the builder: it
  fails with the CompareFailed error and returns no handle.  The same holds for empty
  bytes when no handle is cached yet.
\<close>

theorem Get_rebuild_counterexample:
  "\<not> bytes_Equal None
       (cachedCert \<lparr>cachedCert = Some ''cert1'', cachedClient = Some 7\<rparr>)
   \<and> builderCalls (Get (Inr None) (Inr 8)
       \<lparr>cachedCert = Some ''cert1'', cachedClient = Some 7\<rparr>) = 0
   \<and> returned (Get (Inr None) (Inr 8)
       \<lparr>cachedCert = Some ''cert1'', cachedClient = Some 7\<rparr>) =
         (None, None, Some (TraceErr (CompareFailedError
            ''no certificate in tbot's memory, cannot compare'') []))
   \<and> cachedClient \<lparr>cachedCert = None, cachedClient = None\<rparr> = None
   \<and> builderCalls (Get (Inr (Some [])) (Inr 8)
       \<lparr>cachedCert = None, cachedClient = None\<rparr>) = 0
   \<and> returned (Get (Inr (Some [])) (Inr 8)
       \<lparr>cachedCert = None, cachedClient = None\<rparr>) =
         (None, None, Some (TraceErr (CompareFailedError
            ''no certificate in tbot's memory, cannot compare'') []))"
  by (simp add: Get_def len_def bytes_Equal_def trace_CompareFailed_def)

text \<open>
  C10.  When a rebuild is required and the client builder returns an error \<open>e\<close>,
  \<open>Get\<close> returns that error (wrapped by \<^verbatim>\<open>trace.Wrap\<close>, which keeps the
  underlying error), no client and no release function; the cache keeps its
  certificate bytes and its client, and no goroutine is started, so the previous
  handle is not retired and a later \<open>Get\<close> runs from the same cache state.
\<close>

theorem Get_builder_error:
  assumes "cert \<noteq> None" and "len cert \<noteq> 0"
    and "cachedClient c = None \<or> \<not> bytes_Equal cert (cachedCert c)"
  shows "returned (Get (Inr cert) (Inl e) c) = (None, None, trace_Wrap (Some e) [])
       \<and> map_option trace_Unwrap (snd (snd (returned (Get (Inr cert) (Inl e) c)))) =
           Some (trace_Unwrap e)
       \<and> cacheAfter (Get (Inr cert) (Inl e) c) = c
       \<and> started (Get (Inr cert) (Inl e) c) = []
       \<and> builderCalls (Get (Inr cert) (Inl e) c) = 1
       \<and> Get g b (cacheAfter (Get (Inr cert) (Inl e) c)) = Get g b c"
  using Get_miss [OF assms, of "Inl e"]
  by (simp add: trace_Wrap_def trace_Unwrap_AddUserMessage)

theorem Get_builder_error_witness:
  "returned (Get (Inr (Some ''cert2'')) (Inl (ErrorString ''dial failed''))
      \<lparr>cachedCert = Some ''cert1'', cachedClient = Some 7\<rparr>) =
        (None, None, Some (TraceErr (ErrorString ''dial failed'') []))
   \<and> cacheAfter (Get (Inr (Some ''cert2'')) (Inl (ErrorString ''dial failed''))
      \<lparr>cachedCert = Some ''cert1'', cachedClient = Some 7\<rparr>) =
        \<lparr>cachedCert = Some ''cert1'', cachedClient = Some 7\<rparr>
   \<and> started (Get (Inr (Some ''cert2'')) (Inl (ErrorString ''dial failed''))
      \<lparr>cachedCert = Some ''cert1'', cachedClient = Some 7\<rparr>) = []"
proof -
  have a: "Some ''cert2'' \<noteq> (None :: bytes)" by simp
  have l: "len (Some ''cert2'') \<noteq> 0" by (simp add: len_def)
  have m: "cachedClient \<lparr>cachedCert = Some ''cert1'', cachedClient = Some 7\<rparr> = None
      \<or> \<not> bytes_Equal (Some ''cert2'') (cachedCert \<lparr>cachedCert = Some ''cert1'', cachedClient = Some 7\<rparr>)"
    by (simp add: bytes_Equal_def)
  from Get_builder_error [OF a l m, of "ErrorString ''dial failed''"] show ?thesis
    by (simp add: trace_Wrap_def)
qed

section \<open>Properties of the MFA prompts\<close>

lemma errors_Is_trace_Wrap:
  "errors_Is err target \<Longrightarrow> errors_Is (trace_Wrap err []) target"
  by (cases err; cases "the err") (auto simp add: errors_Is_def trace_Wrap_def)

lemma rangeRespC_ordinary:
  assumes "list_all (\<lambda>resp. Err resp \<noteq> None \<and> \<not> errors_Is (Err resp) ErrUsingNonRegisteredDevice) before"
  shows "rangeRespC errs (before @ respC) = rangeRespC (errs @ map Err before) respC"
  using assms by (induction before arbitrary: errs) simp_all

text \<open>
  C3.  \<open>GetRunOptions\<close> returns a BadParameter error exactly when no modality is
  enabled after the policy, that is when the challenge carries neither a TOTP nor a
  Webauthn sub-challenge, or carries no TOTP sub-challenge while Webauthn is not
  supported.  In every other case it returns no error and the run options that the
  preference rules give, applied in order (PreferOTP with TOTP available disables
  Webauthn; a non-auto attachment with Webauthn available disables TOTP; no stdin
  hijack with Webauthn available disables TOTP), with at least one modality enabled.
\<close>

theorem GetRunOptions_policy:
  "(noModalityEnabled c chal \<longleftrightarrow>
      \<not> (PromptTOTP (preferenceRules c chal) \<or> PromptWebauthn (preferenceRules c chal)))
   \<and> (if noModalityEnabled c chal
       then fst (GetRunOptions c chal) = \<lparr>PromptTOTP = False, PromptWebauthn = False\<rparr>
          \<and> trace_IsBadParameter (snd (GetRunOptions c chal))
       else GetRunOptions c chal = (preferenceRules c chal, None)
          \<and> (PromptTOTP (fst (GetRunOptions c chal)) \<or> PromptWebauthn (fst (GetRunOptions c chal))))"
  by (auto simp add: GetRunOptions_def noModalityEnabled_def preferenceRules_def
      totpAvailable_def webauthnAvailable_def trace_BadParameter_def trace_IsBadParameter_def Let_def)

theorem GetRunOptions_policy_witness:
  "GetRunOptions
     \<lparr>ProxyAddress = ''proxy.example.com:443'', PromptReason = [], DeviceType = [],
      Quiet = False, AllowStdinHijack = False, AuthenticatorAttachment = AttachmentAuto,
      PreferOTP = False, WebauthnSupported = True\<rparr>
     \<lparr>TOTP = Some (), WebauthnChallenge = Some ''assertion''\<rparr>
   = (\<lparr>PromptTOTP = False, PromptWebauthn = True\<rparr>, None)
   \<and> trace_IsBadParameter (snd (GetRunOptions
     \<lparr>ProxyAddress = ''proxy.example.com:443'', PromptReason = [], DeviceType = [],
      Quiet = False, AllowStdinHijack = True, AuthenticatorAttachment = AttachmentAuto,
      PreferOTP = False, WebauthnSupported = False\<rparr>
     \<lparr>TOTP = None, WebauthnChallenge = Some ''assertion''\<rparr>))"
  using GetRunOptions_policy [of
     "\<lparr>ProxyAddress = ''proxy.example.com:443'', PromptReason = [], DeviceType = [],
      Quiet = False, AllowStdinHijack = False, AuthenticatorAttachment = AttachmentAuto,
      PreferOTP = False, WebauthnSupported = True\<rparr>"
     "\<lparr>TOTP = Some (), WebauthnChallenge = Some ''assertion''\<rparr>"]
    GetRunOptions_policy [of
     "\<lparr>ProxyAddress = ''proxy.example.com:443'', PromptReason = [], DeviceType = [],
      Quiet = False, AllowStdinHijack = True, AuthenticatorAttachment = AttachmentAuto,
      PreferOTP = False, WebauthnSupported = False\<rparr>"
     "\<lparr>TOTP = None, WebauthnChallenge = Some ''assertion''\<rparr>"]
  by (simp add: noModalityEnabled_def preferenceRules_def totpAvailable_def webauthnAvailable_def)

text \<open>
  C2, as the code has it.  When exactly one modality task is started and it pushes an
  ordinary failure \<open>e\<close> (one that is not the non-registered-device error), the
  coordinator returns no response and the aggregate of that single error, carrying
  the message "failed to authenticate using available MFA devices": not \<open>e\<close>
  itself.
\<close>

theorem HandleMFAGoroutines_single_failure:
  assumes "\<not> errors_Is (Some e) ErrUsingNonRegisteredDevice"
  shows "HandleMFAGoroutines [\<lparr>Resp = r, Err = Some e\<rparr>] =
    (None, Some (TraceErr (Aggregate [e]) [''failed to authenticate using available MFA devices'']))"
  using assms
  by (simp add: HandleMFAGoroutines_def trace_NewAggregate_def trace_Wrap_def List.map_filter_simps)

theorem HandleMFAGoroutines_single_failure_witness:
  "HandleMFAGoroutines [\<lparr>Resp = None, Err = Some (ErrorString ''invalid totp token'')\<rparr>] =
    (None, Some (TraceErr (Aggregate [ErrorString ''invalid totp token''])
       [''failed to authenticate using available MFA devices'']))"
proof -
  have "\<not> errors_Is (Some (ErrorString ''invalid totp token'')) ErrUsingNonRegisteredDevice"
    by (simp add: errors_Is_def)
  from HandleMFAGoroutines_single_failure [OF this] show ?thesis .
qed

text \<open>
  C2 as stated fails: with the single ordinary failure "invalid totp token" the error
  returned is not that error, and the error under the returned carrier is an
  aggregate.
\<close>

theorem HandleMFAGoroutines_single_failure_counterexample:
  "\<not> errors_Is (Some (ErrorString ''invalid totp token'')) ErrUsingNonRegisteredDevice
   \<and> snd (HandleMFAGoroutines [\<lparr>Resp = None, Err = Some (ErrorString ''invalid totp token'')\<rparr>])
       \<noteq> Some (ErrorString ''invalid totp token'')
   \<and> map_option trace_Unwrap
       (snd (HandleMFAGoroutines [\<lparr>Resp = None, Err = Some (ErrorString ''invalid totp token'')\<rparr>]))
       = Some (Aggregate [ErrorString ''invalid totp token''])"
  by (simp add: HandleMFAGoroutines_def trace_NewAggregate_def trace_Wrap_def
      List.map_filter_simps errors_Is_def)

text \<open>
  C4.  When a response carrying the non-registered-device error is read, all responses
  read before it being ordinary failures, the coordinator returns that error
  (through \<^verbatim>\<open>trace.Wrap\<close>, with no message and no aggregate: \<^verbatim>\<open>errors.Is\<close>
  still finds the sentinel), whatever the channel would deliver later, and also when
  nothing more is delivered; the earlier failures are not part of the result.
\<close>

theorem HandleMFAGoroutines_non_registered:
  assumes "list_all (\<lambda>resp. Err resp \<noteq> None \<and> \<not> errors_Is (Err resp) ErrUsingNonRegisteredDevice) before"
    and "errors_Is (Err resp) ErrUsingNonRegisteredDevice"
  shows "HandleMFAGoroutines (before @ resp # later) = (None, trace_Wrap (Err resp) [])
       \<and> errors_Is (snd (HandleMFAGoroutines (before @ resp # later))) ErrUsingNonRegisteredDevice
       \<and> HandleMFAGoroutines (before @ resp # later) = HandleMFAGoroutines (before @ [resp])"
  using assms
  by (simp add: HandleMFAGoroutines_def rangeRespC_ordinary errors_Is_trace_Wrap)

theorem HandleMFAGoroutines_non_registered_witness:
  "HandleMFAGoroutines
     [\<lparr>Resp = None, Err = Some (ErrorString ''invalid totp token'')\<rparr>,
      \<lparr>Resp = None, Err = Some ErrUsingNonRegisteredDevice\<rparr>,
      \<lparr>Resp = Some (TOTPResponse ''123456''), Err = None\<rparr>]
   = (None, Some (TraceErr ErrUsingNonRegisteredDevice []))"
proof -
  have a: "list_all (\<lambda>resp. Err resp \<noteq> None \<and> \<not> errors_Is (Err resp) ErrUsingNonRegisteredDevice)
      [\<lparr>Resp = None, Err = Some (ErrorString ''invalid totp token'')\<rparr>]"
    by (simp add: errors_Is_def)
  have b: "errors_Is (Err \<lparr>Resp = None, Err = Some ErrUsingNonRegisteredDevice\<rparr>)
      ErrUsingNonRegisteredDevice"
    by (simp add: errors_Is_def)
  from HandleMFAGoroutines_non_registered [OF a b,
      of "[\<lparr>Resp = Some (TOTPResponse ''123456''), Err = None\<rparr>]"]
  show ?thesis by (simp add: trace_Wrap_def)
qed

text \<open>
  C5.  When two modality tasks are started and both push ordinary failures, \<open>e1\<close>
  received first and \<open>e2\<close> second, the coordinator returns no response and one
  aggregate error that holds both errors, \<open>e1\<close> before \<open>e2\<close>.
\<close>

theorem HandleMFAGoroutines_two_failures:
  assumes "\<not> errors_Is (Some e1) ErrUsingNonRegisteredDevice"
    and "\<not> errors_Is (Some e2) ErrUsingNonRegisteredDevice"
  shows "HandleMFAGoroutines [\<lparr>Resp = r1, Err = Some e1\<rparr>, \<lparr>Resp = r2, Err = Some e2\<rparr>] =
    (None, Some (TraceErr (Aggregate [e1, e2]) [''failed to authenticate using available MFA devices'']))"
  using assms
  by (simp add: HandleMFAGoroutines_def trace_NewAggregate_def trace_Wrap_def List.map_filter_simps)

theorem HandleMFAGoroutines_two_failures_witness:
  "HandleMFAGoroutines
     [\<lparr>Resp = None, Err = Some (ErrorString ''webauthn timed out'')\<rparr>,
      \<lparr>Resp = None, Err = Some (ErrorString ''invalid totp token'')\<rparr>]
   = (None, Some (TraceErr
        (Aggregate [ErrorString ''webauthn timed out'', ErrorString ''invalid totp token''])
        [''failed to authenticate using available MFA devices'']))"
proof -
  have a: "\<not> errors_Is (Some (ErrorString ''webauthn timed out'')) ErrUsingNonRegisteredDevice"
    by (simp add: errors_Is_def)
  have b: "\<not> errors_Is (Some (ErrorString ''invalid totp token'')) ErrUsingNonRegisteredDevice"
    by (simp add: errors_Is_def)
  from HandleMFAGoroutines_two_failures [OF a b] show ?thesis .
qed

section \<open>Properties of the registry of watchers\<close>

lemma registryInvI:
  assumes "\<And>u k. headlessWatcherClosers s u = Some k \<Longrightarrow>
         k < length (watchContexts s) \<and> watchContexts s ! k = u \<and> k \<notin> canceledWatches s"
    and "\<And>k. k < length (watchContexts s) \<Longrightarrow> k \<notin> canceledWatches s \<Longrightarrow>
            headlessWatcherClosers s (watchContexts s ! k) = Some k"
    and "\<And>k. k \<in> canceledWatches s \<Longrightarrow> k < length (watchContexts s)"
  shows "registryInv s"
  unfolding registryInv_def using assms by blast

lemma registryInv_registered:
  "registryInv s \<Longrightarrow> headlessWatcherClosers s u = Some k \<Longrightarrow>
     k < length (watchContexts s) \<and> watchContexts s ! k = u \<and> k \<notin> canceledWatches s"
  unfolding registryInv_def by blast

lemma registryInv_active:
  "registryInv s \<Longrightarrow> k < length (watchContexts s) \<Longrightarrow> k \<notin> canceledWatches s \<Longrightarrow>
     headlessWatcherClosers s (watchContexts s ! k) = Some k"
  unfolding registryInv_def by blast

lemma registryInv_canceled:
  "registryInv s \<Longrightarrow> k \<in> canceledWatches s \<Longrightarrow> k < length (watchContexts s)"
  unfolding registryInv_def by blast

lemma registryInv_newService: "registryInv newService"
  by (simp add: registryInv_def newService_def)

lemma stop_None:
  "headlessWatcherClosers s uri = None \<Longrightarrow> snd (stopHeadlessWatcher uri s) = s"
  by (simp add: stopHeadlessWatcher_def)

lemma stop_Some:
  "headlessWatcherClosers s uri = Some k \<Longrightarrow>
     snd (stopHeadlessWatcher uri s) =
       s\<lparr>canceledWatches := insert k (canceledWatches s),
         headlessWatcherClosers := (headlessWatcherClosers s)(uri := None)\<rparr>"
  by (simp add: stopHeadlessWatcher_def)

lemma registryInv_stop:
  assumes "registryInv s"
  shows "registryInv (snd (stopHeadlessWatcher uri s))"
proof (cases "headlessWatcherClosers s uri")
  case None
  with assms show ?thesis by (simp add: stop_None)
next
  case (Some k)
  note k = registryInv_registered [OF assms Some]
  show ?thesis
    unfolding stop_Some [OF Some]
  proof (rule registryInvI)
    fix u j
    assume "headlessWatcherClosers
        (s\<lparr>canceledWatches := insert k (canceledWatches s),
           headlessWatcherClosers := (headlessWatcherClosers s)(uri := None)\<rparr>) u = Some j"
    then have u: "u \<noteq> uri" "headlessWatcherClosers s u = Some j"
      by (auto split: if_splits)
    from registryInv_registered [OF assms u(2)] u(1) k
    show "j < length (watchContexts
            (s\<lparr>canceledWatches := insert k (canceledWatches s),
               headlessWatcherClosers := (headlessWatcherClosers s)(uri := None)\<rparr>))
        \<and> watchContexts
            (s\<lparr>canceledWatches := insert k (canceledWatches s),
               headlessWatcherClosers := (headlessWatcherClosers s)(uri := None)\<rparr>) ! j = u
        \<and> j \<notin> canceledWatches
            (s\<lparr>canceledWatches := insert k (canceledWatches s),
               headlessWatcherClosers := (headlessWatcherClosers s)(uri := None)\<rparr>)"
      by auto
  next
    fix j
    assume "j < length (watchContexts
            (s\<lparr>canceledWatches := insert k (canceledWatches s),
               headlessWatcherClosers := (headlessWatcherClosers s)(uri := None)\<rparr>))"
      and "j \<notin> canceledWatches
            (s\<lparr>canceledWatches := insert k (canceledWatches s),
               headlessWatcherClosers := (headlessWatcherClosers s)(uri := None)\<rparr>)"
    then have j: "j < length (watchContexts s)" "j \<notin> canceledWatches s" "j \<noteq> k"
      by auto
    from registryInv_active [OF assms j(1,2)] Some j(3)
    have "watchContexts s ! j \<noteq> uri" by auto
    with registryInv_active [OF assms j(1,2)]
    show "headlessWatcherClosers
        (s\<lparr>canceledWatches := insert k (canceledWatches s),
           headlessWatcherClosers := (headlessWatcherClosers s)(uri := None)\<rparr>)
        (watchContexts
          (s\<lparr>canceledWatches := insert k (canceledWatches s),
             headlessWatcherClosers := (headlessWatcherClosers s)(uri := None)\<rparr>) ! j) = Some j"
      by simp
  next
    fix j
    assume "j \<in> canceledWatches
        (s\<lparr>canceledWatches := insert k (canceledWatches s),
           headlessWatcherClosers := (headlessWatcherClosers s)(uri := None)\<rparr>)"
    then have "j = k \<or> j \<in> canceledWatches s" by simp
    with k registryInv_canceled [OF assms, of j]
    show "j < length (watchContexts
        (s\<lparr>canceledWatches := insert k (canceledWatches s),
           headlessWatcherClosers := (headlessWatcherClosers s)(uri := None)\<rparr>))"
      by auto
  qed
qed

lemma stop_watchContexts:
  "watchContexts (snd (stopHeadlessWatcher uri s)) = watchContexts s"
  by (simp add: stopHeadlessWatcher_def split: option.splits)

lemma stop_closers:
  "headlessWatcherClosers (snd (stopHeadlessWatcher uri s)) uri = None"
  by (simp add: stopHeadlessWatcher_def split: option.splits)

lemma stop_error:
  "fst (stopHeadlessWatcher uri s) = None \<or> trace_IsNotFound (fst (stopHeadlessWatcher uri s))"
  by (simp add: stopHeadlessWatcher_def trace_NotFound_def trace_IsNotFound_def split: option.splits)

lemma start_eq:
  "snd (startHeadlessWatcher uri waitInit newLinear fired s) =
     (if newLinear \<noteq> None then snd (stopHeadlessWatcher uri s)
      else register uri (snd (stopHeadlessWatcher uri s)))"
  using stop_error [of uri s]
  by (cases "stopHeadlessWatcher uri s") (auto simp add: startHeadlessWatcher_def register_def Let_def)

lemma registryInv_register:
  assumes "registryInv s" and "headlessWatcherClosers s uri = None"
  shows "registryInv (register uri s)"
proof (rule registryInvI)
  fix u j
  assume a: "headlessWatcherClosers (register uri s) u = Some j"
  show "j < length (watchContexts (register uri s))
      \<and> watchContexts (register uri s) ! j = u \<and> j \<notin> canceledWatches (register uri s)"
  proof (cases "u = uri")
    case True
    with a have "j = length (watchContexts s)" by (simp add: register_def)
    with True registryInv_canceled [OF assms(1), of j] show ?thesis
      by (auto simp add: register_def)
  next
    case False
    with a have "headlessWatcherClosers s u = Some j" by (simp add: register_def)
    from registryInv_registered [OF assms(1) this] show ?thesis
      by (simp add: register_def nth_append)
  qed
next
  fix j
  assume "j < length (watchContexts (register uri s))" and "j \<notin> canceledWatches (register uri s)"
  then have j: "j < Suc (length (watchContexts s))" "j \<notin> canceledWatches s"
    by (simp_all add: register_def)
  show "headlessWatcherClosers (register uri s) (watchContexts (register uri s) ! j) = Some j"
  proof (cases "j = length (watchContexts s)")
    case True
    then show ?thesis by (simp add: register_def)
  next
    case False
    with j have lt: "j < length (watchContexts s)" by simp
    from registryInv_active [OF assms(1) lt j(2)] assms(2)
    have "watchContexts s ! j \<noteq> uri" by auto
    with registryInv_active [OF assms(1) lt j(2)] lt show ?thesis
      by (simp add: register_def nth_append)
  qed
next
  fix j
  assume "j \<in> canceledWatches (register uri s)"
  then have "j \<in> canceledWatches s" by (simp add: register_def)
  from registryInv_canceled [OF assms(1) this]
  show "j < length (watchContexts (register uri s))" by (simp add: register_def)
qed

lemma registryInv_start:
  assumes "registryInv s"
  shows "registryInv (snd (startHeadlessWatcher uri waitInit newLinear fired s))"
  using registryInv_stop [OF assms, of uri] stop_closers [of uri s]
  by (simp add: start_eq registryInv_register)

lemma registryInv_exit:
  assumes "registryInv s"
  shows "registryInv (watchGoroutineExit k s)"
  using registryInv_stop [OF assms] assms by (simp add: watchGoroutineExit_def)

lemma registryInv_step: "registryInv s \<Longrightarrow> registryInv (registryStep s call)"
  by (cases call) (simp_all add: registryInv_start registryInv_stop registryInv_exit)

lemma registryInv_foldl: "registryInv s \<Longrightarrow> registryInv (foldl registryStep s calls)"
  by (induction calls arbitrary: s) (simp_all add: registryInv_step)

lemma registryInv_serviceAfter: "registryInv (serviceAfter calls)"
  by (simp add: serviceAfter_def registryInv_foldl registryInv_newService)

lemma filter_upt_none: "(\<And>j. j < n \<Longrightarrow> \<not> P j) \<Longrightarrow> filter P [0 ..< n] = []"
  by (simp add: filter_empty_conv)

lemma filter_upt_single:
  "k < n \<Longrightarrow> P k \<Longrightarrow> (\<And>j. j < n \<Longrightarrow> P j \<Longrightarrow> j = k) \<Longrightarrow> filter P [0 ..< n] = [k]"
proof (induction n)
  case 0
  then show ?case by simp
next
  case (Suc n)
  show ?case
  proof (cases "k = n")
    case True
    have "\<not> P j" if "j < n" for j
      using Suc.prems(3) [of j] True that by auto
    then have "filter P [0 ..< n] = []"
      by (simp add: filter_empty_conv)
    with True Suc.prems(2) show ?thesis by simp
  next
    case False
    with Suc.prems(1) have "k < n" by simp
    moreover have "\<not> P n" using Suc.prems(3) [of n] False by auto
    moreover have "filter P [0 ..< n] = [k]"
    proof (rule Suc.IH [OF \<open>k < n\<close> Suc.prems(2)])
      fix j assume "j < n" and "P j"
      then show "j = k" using Suc.prems(3) [of j] by simp
    qed
    ultimately show ?thesis by simp
  qed
qed

lemma activeWatches_registered:
  assumes "registryInv s"
  shows "activeWatches s uri =
    (case headlessWatcherClosers s uri of None \<Rightarrow> [] | Some k \<Rightarrow> [k])"
proof (cases "headlessWatcherClosers s uri")
  case None
  have "activeWatches s uri = []"
    unfolding activeWatches_def
  proof (rule filter_upt_none)
    fix j assume lt: "j < length (watchContexts s)"
    show "\<not> (watchContexts s ! j = uri \<and> j \<notin> canceledWatches s)"
    proof
      assume a: "watchContexts s ! j = uri \<and> j \<notin> canceledWatches s"
      then have "headlessWatcherClosers s uri = Some j"
        using registryInv_active [OF assms lt] by auto
      with None show False by simp
    qed
  qed
  with None show ?thesis by simp
next
  case (Some k)
  have "activeWatches s uri = [k]"
    unfolding activeWatches_def
  proof (rule filter_upt_single)
    from registryInv_registered [OF assms Some]
    show "k < length (watchContexts s)" and "watchContexts s ! k = uri \<and> k \<notin> canceledWatches s"
      by simp_all
  next
    fix j assume lt: "j < length (watchContexts s)"
      and a: "watchContexts s ! j = uri \<and> j \<notin> canceledWatches s"
    then have "headlessWatcherClosers s uri = Some j"
      using registryInv_active [OF assms lt] by auto
    with Some show "j = k" by simp
  qed
  with Some show ?thesis by simp
qed


lemma start_active:
  assumes "registryInv s"
  shows "activeWatches (snd (startHeadlessWatcher uri waitInit None fired s)) uri =
      [length (watchContexts s)]"
    and "headlessWatcherClosers (snd (startHeadlessWatcher uri waitInit None fired s)) uri =
      Some (length (watchContexts s))"
proof -
  show c: "headlessWatcherClosers (snd (startHeadlessWatcher uri waitInit None fired s)) uri =
      Some (length (watchContexts s))"
    by (simp add: start_eq register_def stop_watchContexts)
  show "activeWatches (snd (startHeadlessWatcher uri waitInit None fired s)) uri =
      [length (watchContexts s)]"
    using activeWatches_registered [OF registryInv_start [OF assms], of uri waitInit None fired uri] c
    by simp
qed

lemma stop_cancels_active:
  assumes "registryInv s"
  shows "set (activeWatches s uri) \<subseteq> canceledWatches (snd (stopHeadlessWatcher uri s))"
  using activeWatches_registered [OF assms, of uri]
  by (cases "headlessWatcherClosers s uri") (simp_all add: stop_Some)

lemma start_canceledWatches:
  "canceledWatches (snd (startHeadlessWatcher uri waitInit newLinear fired s)) =
     canceledWatches (snd (stopHeadlessWatcher uri s))"
  by (simp add: start_eq register_def)

lemma at_most_one_active:
  assumes "registryInv s"
  shows "length (activeWatches s uri) \<le> 1"
  using activeWatches_registered [OF assms, of uri]
  by (cases "headlessWatcherClosers s uri") simp_all

text \<open>
  C9.  In a service reached by any sequence of starts, stops and watch goroutine exits,
  a start for a cluster (with a retry configuration that is accepted) leaves exactly
  one active watch for the cluster, the new one, which is the one registered; the
  watches of the cluster that were active before are canceled.  Starting once more
  for the same cluster cancels the watch of the first start and again leaves exactly
  one active watch, the newest.  After every start, whatever its outcome, every cluster
  has at most one active watch.
\<close>

theorem startHeadlessWatcher_one_active_watch:
  assumes "s = serviceAfter calls"
    and "s1 = snd (startHeadlessWatcher uri waitInit1 None fired1 s)"
    and "s2 = snd (startHeadlessWatcher uri waitInit2 None fired2 s1)"
  shows "activeWatches s1 uri = [length (watchContexts s)]
       \<and> headlessWatcherClosers s1 uri = Some (length (watchContexts s))
       \<and> set (activeWatches s uri) \<subseteq> canceledWatches s1
       \<and> activeWatches s2 uri = [length (watchContexts s1)]
       \<and> headlessWatcherClosers s2 uri = Some (length (watchContexts s1))
       \<and> length (watchContexts s) \<in> canceledWatches s2
       \<and> length (watchContexts s) \<noteq> length (watchContexts s1)
       \<and> length (activeWatches (snd (startHeadlessWatcher uri waitInit newLinear fired s)) other) \<le> 1"
proof -
  have inv: "registryInv s" by (simp add: assms(1) registryInv_serviceAfter)
  have inv1: "registryInv s1" by (simp add: assms(2) registryInv_start [OF inv])
  have a1: "activeWatches s1 uri = [length (watchContexts s)]"
    and c1: "headlessWatcherClosers s1 uri = Some (length (watchContexts s))"
    unfolding assms(2) by (rule start_active [OF inv])+
  have q: "set (activeWatches s uri) \<subseteq> canceledWatches s1"
    unfolding assms(2) start_canceledWatches by (rule stop_cancels_active [OF inv])
  have a2: "activeWatches s2 uri = [length (watchContexts s1)]"
    and c2: "headlessWatcherClosers s2 uri = Some (length (watchContexts s1))"
    unfolding assms(3) by (rule start_active [OF inv1])+
  have "set (activeWatches s1 uri) \<subseteq> canceledWatches s2"
    unfolding assms(3) start_canceledWatches by (rule stop_cancels_active [OF inv1])
  with a1 have old: "length (watchContexts s) \<in> canceledWatches s2" by simp
  have fresh: "length (watchContexts s) \<noteq> length (watchContexts s1)"
    by (simp add: assms(2) start_eq register_def stop_watchContexts)
  have every: "length (activeWatches (snd (startHeadlessWatcher uri waitInit newLinear fired s)) other) \<le> 1"
    by (rule at_most_one_active [OF registryInv_start [OF inv]])
  from a1 c1 q a2 c2 old fresh every show ?thesis by simp
qed

theorem startHeadlessWatcher_one_active_watch_witness:
  "activeWatches
     (snd (startHeadlessWatcher ''/clusters/a'' False None PendingWatcherInitialized
       (snd (startHeadlessWatcher ''/clusters/a'' False None PendingWatcherInitialized
         (serviceAfter [Start ''/clusters/a'' False None PendingWatcherInitialized,
                        Start ''/clusters/b'' False None PendingWatcherInitialized])))))
     ''/clusters/a'' = [3]
   \<and> 2 \<in> canceledWatches
     (snd (startHeadlessWatcher ''/clusters/a'' False None PendingWatcherInitialized
       (snd (startHeadlessWatcher ''/clusters/a'' False None PendingWatcherInitialized
         (serviceAfter [Start ''/clusters/a'' False None PendingWatcherInitialized,
                        Start ''/clusters/b'' False None PendingWatcherInitialized])))))"
proof -
  have n: "length (watchContexts
      (serviceAfter [Start ''/clusters/a'' False None PendingWatcherInitialized,
                     Start ''/clusters/b'' False None PendingWatcherInitialized])) = 2"
    by (simp add: serviceAfter_def newService_def start_eq register_def stop_watchContexts)
  have m: "length (watchContexts
      (snd (startHeadlessWatcher ''/clusters/a'' False None PendingWatcherInitialized
         (serviceAfter [Start ''/clusters/a'' False None PendingWatcherInitialized,
                        Start ''/clusters/b'' False None PendingWatcherInitialized])))) = 3"
    by (simp add: n start_eq register_def stop_watchContexts)
  from startHeadlessWatcher_one_active_watch [OF refl refl refl,
      of "''/clusters/a''" False PendingWatcherInitialized
         "[Start ''/clusters/a'' False None PendingWatcherInitialized,
           Start ''/clusters/b'' False None PendingWatcherInitialized]"
         False PendingWatcherInitialized]
  show ?thesis by (simp add: n m)
qed

section \<open>Properties of the watch loop\<close>

lemma watchLoop_append:
  "watchLoop s (xs @ ys) =
     (case watchLoop s xs of Continue s' \<Rightarrow> watchLoop s' ys | Return err s' \<Rightarrow> Return err s')"
  by (induction xs arbitrary: s) (simp_all split: Round.splits)

lemma cancelPendingRequest_pendingRequests:
  "pendingRequests (cancelPendingRequest name s) = pendingRequests s"
  by (simp add: cancelPendingRequest_def split: option.splits)

lemma watchSelect_keeps_entry:
  assumes "watchSelect signal s = Continue s'" and "pendingRequests s r \<noteq> None"
  shows "pendingRequests s' r \<noteq> None"
proof (cases signal)
  case (PendingEvent event)
  with assms show ?thesis
    by (cases "Resource event")
      (auto simp add: addPendingRequest_def Let_def split: if_splits)
next
  case (ResolutionEvent event)
  with assms show ?thesis
    by (cases "Type event"; cases "Resource event")
      (auto simp add: cancelPendingRequest_pendingRequests split: HeadlessAuthenticationState.splits)
qed (use assms in simp_all)

lemma pendingPut_registers:
  assumes "pendingPut signal r" and "watchSelect signal s = Continue s'"
  shows "pendingRequests s' r = Some (sendContexts s)"
proof (cases signal)
  case (PendingEvent event)
  with assms show ?thesis
    by (cases "Resource event") (auto simp add: addPendingRequest_def Let_def)
qed (use assms in simp_all)

lemma terminalResolution_cancels:
  assumes "terminalResolution signal r"
  shows "watchSelect signal s = Continue (cancelPendingRequest r s)"
proof (cases signal)
  case (ResolutionEvent event)
  with assms show ?thesis
    by (cases "Type event"; cases "Resource event") auto
qed (use assms in simp_all)

lemma watchLoop_keeps_entry:
  "watchLoop s signals = Continue s' \<Longrightarrow> pendingRequests s r \<noteq> None \<Longrightarrow> pendingRequests s' r \<noteq> None"
proof (induction signals arbitrary: s)
  case Nil
  then show ?case by simp
next
  case (Cons signal signals)
  from Cons.prems(1) obtain s1 where s1: "watchSelect signal s = Continue s1"
    and rest: "watchLoop s1 signals = Continue s'"
    by (auto split: Round.splits)
  from watchSelect_keeps_entry [OF s1 Cons.prems(2)] Cons.IH [OF rest] show ?case by simp
qed

text \<open>
  C1, as the code has it.  When the loop has processed, without returning, a sequence
  of signals in which a put event of the pending stream for request \<open>r\<close> is followed
  later by a terminal resolution event for \<open>r\<close> (a put in state approved or denied,
  or a delete), the cancel function registered for \<open>r\<close> has been called; the registry
  of pending requests still holds the entry for \<open>r\<close>.
\<close>

theorem watchLoop_resolution_cancels:
  assumes "watchLoop s (before @ [pending] @ between @ [resolution]) = Continue s'"
    and "pendingPut pending r" and "terminalResolution resolution r"
  shows "\<exists>cancel. pendingRequests s' r = Some cancel \<and> cancel \<in> canceledSends s'"
proof -
  from assms(1) obtain s1 s2 s3 where
    b: "watchLoop s before = Continue s1" and
    p: "watchSelect pending s1 = Continue s2" and
    m: "watchLoop s2 between = Continue s3" and
    t: "watchSelect resolution s3 = Continue s'"
    by (auto simp add: watchLoop_append split: Round.splits)
  from pendingPut_registers [OF assms(2) p] have "pendingRequests s2 r \<noteq> None" by simp
  from watchLoop_keeps_entry [OF m this] obtain cancel where c: "pendingRequests s3 r = Some cancel"
    by auto
  from t terminalResolution_cancels [OF assms(3), of s3] have "s' = cancelPendingRequest r s3"
    by simp
  with c show ?thesis
    by (simp add: cancelPendingRequest_def)
qed

theorem watchLoop_resolution_cancels_witness:
  "\<exists>cancel. pendingRequests (roundState (watchLoop newWatchState
      [PendingEvent \<lparr>Type = OpPut, Resource =
          HeadlessAuthentication ''r'' HEADLESS_AUTHENTICATION_STATE_PENDING ''192.0.2.1''\<rparr>,
       ResolutionEvent \<lparr>Type = OpDelete, Resource = OtherResource ''*types.ResourceHeader'' ''r''\<rparr>]))
      ''r'' = Some cancel
    \<and> cancel \<in> canceledSends (roundState (watchLoop newWatchState
      [PendingEvent \<lparr>Type = OpPut, Resource =
          HeadlessAuthentication ''r'' HEADLESS_AUTHENTICATION_STATE_PENDING ''192.0.2.1''\<rparr>,
       ResolutionEvent \<lparr>Type = OpDelete, Resource = OtherResource ''*types.ResourceHeader'' ''r''\<rparr>]))"
proof -
  let ?pending = "PendingEvent \<lparr>Type = OpPut, Resource =
      HeadlessAuthentication ''r'' HEADLESS_AUTHENTICATION_STATE_PENDING ''192.0.2.1''\<rparr>"
  let ?resolution = "ResolutionEvent \<lparr>Type = OpDelete, Resource =
      OtherResource ''*types.ResourceHeader'' ''r''\<rparr>"
  have run: "watchLoop newWatchState ([] @ [?pending] @ [] @ [?resolution]) =
      Continue (roundState (watchLoop newWatchState [?pending, ?resolution]))"
    by (simp add: roundState_def Let_def)
  have p: "pendingPut ?pending ''r''" by simp
  have t: "terminalResolution ?resolution ''r''" by simp
  from watchLoop_resolution_cancels [OF run p t] show ?thesis .
qed

text \<open>
  C1 as stated fails: after a put of the pending stream for \<open>r\<close> and the put that
  approves \<open>r\<close>, the loop is still running and the registry still maps \<open>r\<close> to its
  cancel function.
\<close>

theorem watchLoop_entry_retained_counterexample:
  "watchLoop newWatchState
     [PendingEvent \<lparr>Type = OpPut, Resource =
        HeadlessAuthentication ''r'' HEADLESS_AUTHENTICATION_STATE_PENDING ''192.0.2.1''\<rparr>,
      ResolutionEvent \<lparr>Type = OpPut, Resource =
        HeadlessAuthentication ''r'' HEADLESS_AUTHENTICATION_STATE_APPROVED ''192.0.2.1''\<rparr>]
   = Continue (roundState (watchLoop newWatchState
     [PendingEvent \<lparr>Type = OpPut, Resource =
        HeadlessAuthentication ''r'' HEADLESS_AUTHENTICATION_STATE_PENDING ''192.0.2.1''\<rparr>,
      ResolutionEvent \<lparr>Type = OpPut, Resource =
        HeadlessAuthentication ''r'' HEADLESS_AUTHENTICATION_STATE_APPROVED ''192.0.2.1''\<rparr>]))
   \<and> pendingRequests (roundState (watchLoop newWatchState
     [PendingEvent \<lparr>Type = OpPut, Resource =
        HeadlessAuthentication ''r'' HEADLESS_AUTHENTICATION_STATE_PENDING ''192.0.2.1''\<rparr>,
      ResolutionEvent \<lparr>Type = OpPut, Resource =
        HeadlessAuthentication ''r'' HEADLESS_AUTHENTICATION_STATE_APPROVED ''192.0.2.1''\<rparr>])) ''r''
     = Some 0"
  by (simp add: newWatchState_def roundState_def addPendingRequest_def cancelPendingRequest_def Let_def)

end
